theory Spec2Isabelle
  imports Complex_Main
begin

section \<open>JavaScript values\<close>

text \<open>
  The cache stores values of any type and passes thrown values around as data, so the
  model has one type of JavaScript values. Numbers are the integers (timestamps in
  milliseconds and durations; the model leaves out fractions, NaN and rounding above
  2^53). An object is the list of its own properties, each name once. \<open>JError m c\<close>
  is an \<open>Error\<close> instance with message \<open>m\<close> and, for errors of the file system, an own
  property \<open>code\<close>.
\<close>

datatype jsval =
    JUndefined
  | JNull
  | JBool bool
  | JNum int
  | JStr string
  | JArr "jsval list"
  | JObj "(string \<times> jsval) list"
  | JError string "string option"

text \<open>The result of a call: \<open>Inl\<close> is a thrown value (a rejected promise), \<open>Inr\<close> a return.\<close>

type_synonym 'a result = "jsval + 'a"

fun typeof :: "jsval \<Rightarrow> string" where
  "typeof JUndefined = ''undefined''"
| "typeof JNull = ''object''"
| "typeof (JBool b) = ''boolean''"
| "typeof (JNum n) = ''number''"
| "typeof (JStr s) = ''string''"
| "typeof (JArr xs) = ''object''"
| "typeof (JObj fs) = ''object''"
| "typeof (JError m c) = ''object''"

fun truthy :: "jsval \<Rightarrow> bool" where
  "truthy JUndefined = False"
| "truthy JNull = False"
| "truthy (JBool b) = b"
| "truthy (JNum n) = (n \<noteq> 0)"
| "truthy (JStr s) = (s \<noteq> [])"
| "truthy (JArr xs) = True"
| "truthy (JObj fs) = True"
| "truthy (JError m c) = True"

text \<open>\<open>jsprop v n\<close> is the property read \<open>v.n\<close>, \<open>has_prop n v\<close> the test \<open>n in v\<close>, for
  the property names the program uses.\<close>

fun jsprop :: "jsval \<Rightarrow> string \<Rightarrow> jsval" where
  "jsprop (JObj fs) n = (case map_of fs n of None \<Rightarrow> JUndefined | Some v \<Rightarrow> v)"
| "jsprop (JError m c) n =
     (if n = ''message'' then JStr m
      else if n = ''code'' then (case c of None \<Rightarrow> JUndefined | Some x \<Rightarrow> JStr x)
      else JUndefined)"
| "jsprop _ n = JUndefined"

fun has_prop :: "string \<Rightarrow> jsval \<Rightarrow> bool" where
  "has_prop n (JObj fs) = (case map_of fs n of None \<Rightarrow> False | Some v \<Rightarrow> True)"
| "has_prop n (JError m c) =
     (if n = ''message'' then True
      else if n = ''code'' then (case c of None \<Rightarrow> False | Some x \<Rightarrow> True)
      else False)"
| "has_prop n _ = False"

fun instanceof_Error :: "jsval \<Rightarrow> bool" where
  "instanceof_Error (JError m c) = True"
| "instanceof_Error _ = False"

section \<open>The cache: entries, options, state\<close>

record CacheEntry =
  key :: string
  val :: jsval
  cachedAt :: int
  expiresAt :: int

text \<open>\<open>isCacheEntry\<close> of cache.ts, on a parsed JSON value.\<close>

definition isCacheEntry :: "jsval \<Rightarrow> bool" where
  "isCacheEntry v =
     (if typeof v \<noteq> ''object'' then False
      else if v = JNull then False
      else typeof (jsprop v ''key'') = ''string'' \<and>
           has_prop ''value'' v \<and>
           typeof (jsprop v ''cachedAt'') = ''number'' \<and>
           typeof (jsprop v ''expiresAt'') = ''number'')"

text \<open>A value that passed \<open>isCacheEntry\<close> is used as a \<open>CacheEntry\<close>; the two
  projections read a string and a number where the check has found one.\<close>

fun str_of :: "jsval \<Rightarrow> string" where
  "str_of (JStr s) = s"
| "str_of _ = []"

fun num_of :: "jsval \<Rightarrow> int" where
  "num_of (JNum n) = n"
| "num_of _ = 0"

definition entry_of :: "jsval \<Rightarrow> CacheEntry" where
  "entry_of v = \<lparr> key = str_of (jsprop v ''key''), val = jsprop v ''value'',
      cachedAt = num_of (jsprop v ''cachedAt''), expiresAt = num_of (jsprop v ''expiresAt'') \<rparr>"

text \<open>The entry as the object that \<open>set\<close> builds.\<close>

definition entry_object :: "CacheEntry \<Rightarrow> jsval" where
  "entry_object e = JObj [(''key'', JStr (key e)), (''value'', val e),
      (''cachedAt'', JNum (cachedAt e)), (''expiresAt'', JNum (expiresAt e))]"

text \<open>
  What \<open>JSON.parse\<close> reads back from the text that \<open>JSON.stringify\<close> made of a value:
  a property whose value is \<open>undefined\<close> is left out, \<open>undefined\<close> in an array becomes
  \<open>null\<close>, and of an \<open>Error\<close> only its enumerable own properties remain (here:
  \<open>code\<close>). The values of the model have no cycles and no \<open>BigInt\<close>, on which
  \<open>JSON.stringify\<close> throws.
\<close>

fun jsonify :: "jsval \<Rightarrow> jsval"
  and jsonify_items :: "jsval list \<Rightarrow> jsval list"
  and jsonify_props :: "(string \<times> jsval) list \<Rightarrow> (string \<times> jsval) list" where
  "jsonify JUndefined = JUndefined"
| "jsonify JNull = JNull"
| "jsonify (JBool b) = JBool b"
| "jsonify (JNum n) = JNum n"
| "jsonify (JStr s) = JStr s"
| "jsonify (JArr xs) = JArr (jsonify_items xs)"
| "jsonify (JObj fs) = JObj (jsonify_props fs)"
| "jsonify (JError m c) = JObj (case c of None \<Rightarrow> [] | Some x \<Rightarrow> [(''code'', JStr x)])"
| "jsonify_items [] = []"
| "jsonify_items (x # xs) = (if x = JUndefined then JNull else jsonify x) # jsonify_items xs"
| "jsonify_props [] = []"
| "jsonify_props ((n, v) # fs) =
     (if v = JUndefined then jsonify_props fs else (n, jsonify v) # jsonify_props fs)"

text \<open>JSON data: the values that come back from the file as they went in.\<close>

fun is_json :: "jsval \<Rightarrow> bool"
  and is_json_items :: "jsval list \<Rightarrow> bool"
  and is_json_props :: "(string \<times> jsval) list \<Rightarrow> bool" where
  "is_json JUndefined = False"
| "is_json JNull = True"
| "is_json (JBool b) = True"
| "is_json (JNum n) = True"
| "is_json (JStr s) = True"
| "is_json (JArr xs) = is_json_items xs"
| "is_json (JObj fs) = is_json_props fs"
| "is_json (JError m c) = False"
| "is_json_items [] = True"
| "is_json_items (x # xs) = (is_json x \<and> is_json_items xs)"
| "is_json_props [] = True"
| "is_json_props ((n, v) # fs) = (is_json v \<and> is_json_props fs)"

record cache_opts =
  dir :: string
  ttlMs :: int
  staleIfErrorMs :: int

text \<open>
  A file of the cache directory is unreadable (\<open>fs.readFile\<close> rejects with the given
  error), or has a text, which \<open>JSON.parse\<close> rejects or turns into a value. A path with
  no file is \<open>ENOENT\<close>.
\<close>

datatype file_text = Malformed | Encodes jsval

datatype disk_file = Unreadable jsval | Text file_text

type_synonym disk = "string \<rightharpoonup> disk_file"

text \<open>A pending or settled promise of the in-flight registry.\<close>

datatype promise = Pending | Fulfilled jsval | Rejected jsval

text \<open>
  The state: the fields \<open>opts\<close>, \<open>mem\<close> and \<open>inFlight\<close> of the class \<open>Cache\<close>, the
  file system, the promises created by \<open>fetch\<close> (the registry maps a key to the index
  of its promise) and the number of times a fetcher has been invoked.
\<close>

record cache =
  opts :: cache_opts
  mem :: "string \<rightharpoonup> CacheEntry"
  inFlight :: "string \<rightharpoonup> nat"
  disk :: disk
  promises :: "promise list"
  calls :: nat

section \<open>Reading: \<open>fileForKey\<close>, \<open>readDisk\<close>, \<open>get\<close>\<close>

text \<open>The parameter \<open>H\<close> is the hexadecimal SHA-1 digest of a key.\<close>

definition fileForKey :: "(string \<Rightarrow> string) \<Rightarrow> cache_opts \<Rightarrow> string \<Rightarrow> string" where
  "fileForKey H os k = dir os @ ''/'' @ H k @ ''.json''"

definition ENOENT :: jsval where
  "ENOENT = JError ''ENOENT: no such file or directory'' (Some ''ENOENT'')"

definition SyntaxError :: jsval where
  "SyntaxError = JError ''SyntaxError: invalid JSON'' None"

definition fs_readFile :: "disk \<Rightarrow> string \<Rightarrow> file_text result" where
  "fs_readFile d p =
     (case d p of None \<Rightarrow> Inl ENOENT
      | Some (Unreadable e) \<Rightarrow> Inl e
      | Some (Text t) \<Rightarrow> Inr t)"

definition JSON_parse :: "file_text \<Rightarrow> jsval result" where
  "JSON_parse t = (case t of Malformed \<Rightarrow> Inl SyntaxError | Encodes v \<Rightarrow> Inr v)"

text \<open>The body of the \<open>try\<close> of \<open>readDisk\<close>, then \<open>readDisk\<close> with its \<open>catch\<close>.\<close>

definition readDisk_try :: "(string \<Rightarrow> string) \<Rightarrow> cache \<Rightarrow> string \<Rightarrow> CacheEntry option result" where
  "readDisk_try H s k =
     (case fs_readFile (disk s) (fileForKey H (opts s) k) of
        Inl err \<Rightarrow> Inl err
      | Inr raw \<Rightarrow>
          (case JSON_parse raw of
             Inl err \<Rightarrow> Inl err
           | Inr parsed \<Rightarrow>
               if \<not> isCacheEntry parsed then Inr None
               else if jsprop parsed ''key'' \<noteq> JStr k then Inr None
               else Inr (Some (entry_of parsed))))"

definition readDisk :: "(string \<Rightarrow> string) \<Rightarrow> cache \<Rightarrow> string \<Rightarrow> CacheEntry option result" where
  "readDisk H s k =
     (case readDisk_try H s k of
        Inr r \<Rightarrow> Inr r
      | Inl err \<Rightarrow>
          if instanceof_Error err \<and> has_prop ''code'' err \<and> jsprop err ''code'' = JStr ''ENOENT''
          then Inr None
          else Inl err)"

datatype get_source = Src_memory | Src_disk | Src_null

record get_result =
  entry :: "CacheEntry option"
  stale :: bool
  source :: get_source

text \<open>\<open>Cache.get\<close>; \<open>now\<close> is its reading of \<open>Date.now()\<close>. The \<open>catch\<close> around
  \<open>readDisk\<close> drops the error and falls through to the last \<open>return\<close>.\<close>

definition Cache_get ::
  "(string \<Rightarrow> string) \<Rightarrow> cache \<Rightarrow> int \<Rightarrow> string \<Rightarrow> (get_result \<times> cache) result" where
  "Cache_get H s now k =
     (case mem s k of
        Some memEntry \<Rightarrow>
          Inr (\<lparr> entry = Some memEntry, stale = (now > expiresAt memEntry), source = Src_memory \<rparr>, s)
      | None \<Rightarrow>
          (case readDisk H s k of
             Inr (Some diskEntry) \<Rightarrow>
               Inr (\<lparr> entry = Some diskEntry, stale = (now > expiresAt diskEntry),
                      source = Src_disk \<rparr>,
                    s\<lparr> mem := (mem s)(k \<mapsto> diskEntry) \<rparr>)
           | Inr None \<Rightarrow> Inr (\<lparr> entry = None, stale = False, source = Src_null \<rparr>, s)
           | Inl err \<Rightarrow> Inr (\<lparr> entry = None, stale = False, source = Src_null \<rparr>, s)))"

section \<open>Writing: \<open>set\<close>\<close>

text \<open>
  \<open>Cache.set\<close>; \<open>now\<close> is its reading of \<open>Date.now()\<close>, \<open>fault\<close> the error with which
  \<open>fs.mkdir\<close> or \<open>fs.writeFile\<close> rejects, if one does (the file is then taken to be as
  it was). \<open>set\<close> returns nothing or throws, and leaves a state in both cases: the file
  is written before \<open>mem\<close> is updated, so after a rejected write \<open>mem\<close> is as it was.
  The file holds the text \<open>JSON.stringify(entry)\<close>.
\<close>

definition fs_writeFile :: "jsval option \<Rightarrow> disk \<Rightarrow> string \<Rightarrow> file_text \<Rightarrow> disk result" where
  "fs_writeFile fault d p t = (case fault of Some err \<Rightarrow> Inl err | None \<Rightarrow> Inr (d(p \<mapsto> Text t)))"

definition Cache_set ::
  "(string \<Rightarrow> string) \<Rightarrow> cache \<Rightarrow> int \<Rightarrow> jsval option \<Rightarrow> string \<Rightarrow> jsval \<Rightarrow> int option
     \<Rightarrow> unit result \<times> cache" where
  "Cache_set H s now fault k v ttl =
     (let e = \<lparr> key = k, val = v, cachedAt = now,
                expiresAt = now + (case ttl of None \<Rightarrow> ttlMs (opts s) | Some t \<Rightarrow> t) \<rparr>
      in case fs_writeFile fault (disk s) (fileForKey H (opts s) k)
                (Encodes (jsonify (entry_object e))) of
           Inl err \<Rightarrow> (Inl err, s)
         | Inr d' \<Rightarrow>
             (let s1 = s\<lparr> disk := d' \<rparr>
              in (Inr (), s1\<lparr> mem := (mem s1)(k \<mapsto> e) \<rparr>)))"

section \<open>Fetching: \<open>fetch\<close>\<close>

text \<open>
  \<open>Cache.fetch\<close> is an \<open>async\<close> function: it runs until an \<open>await\<close>, is suspended
  there, and other callers run in between. The model follows it from one suspension to
  the next. What the environment does is given from outside: the readings of
  \<open>Date.now()\<close>, what the fetcher does, whether the write of \<open>set\<close> fails. The fetcher
  throws at once (before it returns a promise) or returns a promise that is rejected
  or resolved later; it does not touch the cache itself.
\<close>

record fetch_options =
  opt_ttlMs :: "int option"
  opt_staleIfErrorMs :: "int option"

datatype fetcher = ThrowsSync jsval | Rejects jsval | Resolves jsval

text \<open>The local variables of a call of \<open>fetch\<close> once \<open>get\<close> has returned.\<close>

record frame =
  f_key :: string
  f_ttlMs :: int
  f_staleIfErrorMs :: int
  f_now :: int
  f_entry :: "CacheEntry option"
  f_stale :: bool

text \<open>The three object literals that \<open>fetch\<close> returns.\<close>

definition hit_result :: "CacheEntry \<Rightarrow> jsval" where
  "hit_result e = JObj [(''value'', val e), (''source'', JStr ''cache''),
      (''stale'', JBool False), (''cachedAt'', JNum (cachedAt e))]"

definition stale_result :: "CacheEntry \<Rightarrow> jsval \<Rightarrow> jsval" where
  "stale_result e err = JObj [(''value'', val e), (''source'', JStr ''cache''),
      (''stale'', JBool True), (''cachedAt'', JNum (cachedAt e)), (''error'', err)]"

definition origin_result :: "jsval \<Rightarrow> jsval" where
  "origin_result v = JObj [(''value'', v), (''source'', JStr ''origin''), (''stale'', JBool False)]"

text \<open>Lines 93 to 97: the two options with their defaults, the clock, and the call of
  \<open>get\<close> (taken as one step, as is the call of \<open>set\<close> further down).\<close>

definition option_ttlMs :: "cache \<Rightarrow> fetch_options option \<Rightarrow> int" where
  "option_ttlMs s options =
     (case options of
        None \<Rightarrow> ttlMs (opts s)
      | Some os \<Rightarrow> (case opt_ttlMs os of None \<Rightarrow> ttlMs (opts s) | Some t \<Rightarrow> t))"

definition option_staleIfErrorMs :: "cache \<Rightarrow> fetch_options option \<Rightarrow> int" where
  "option_staleIfErrorMs s options =
     (case options of
        None \<Rightarrow> staleIfErrorMs (opts s)
      | Some os \<Rightarrow> (case opt_staleIfErrorMs os of None \<Rightarrow> staleIfErrorMs (opts s) | Some t \<Rightarrow> t))"

definition fetch_enter ::
  "(string \<Rightarrow> string) \<Rightarrow> cache \<Rightarrow> int \<Rightarrow> int \<Rightarrow> string \<Rightarrow> fetch_options option
     \<Rightarrow> (frame \<times> cache) result" where
  "fetch_enter H s now now' k options =
     (case Cache_get H s now' k of
        Inl err \<Rightarrow> Inl err
      | Inr (r, s') \<Rightarrow>
          Inr (\<lparr> f_key = k, f_ttlMs = option_ttlMs s options,
                 f_staleIfErrorMs = option_staleIfErrorMs s options, f_now = now,
                 f_entry = entry r, f_stale = stale r \<rparr>, s'))"

text \<open>The \<open>catch\<close> and the \<open>finally\<close> of the inner \<open>async\<close> function (lines 113 to 123):
  what its promise settles to after the error \<open>err\<close>, and the removal from the registry.\<close>

definition iife_catch :: "frame \<Rightarrow> jsval \<Rightarrow> promise" where
  "iife_catch f err =
     (case f_entry f of
        Some e \<Rightarrow>
          (let staleAge = f_now f - expiresAt e
           in if staleAge \<le> f_staleIfErrorMs f then Fulfilled (stale_result e err)
              else Rejected err)
      | None \<Rightarrow> Rejected err)"

definition iife_finally :: "cache \<Rightarrow> string \<Rightarrow> cache" where
  "iife_finally s k = s\<lparr> inFlight := (inFlight s)(k := None) \<rparr>"

text \<open>
  Lines 98 to 128, run without interruption once \<open>get\<close> has returned: the fresh hit, the
  look into the registry, and otherwise the start of the inner function, which calls
  the fetcher before its first \<open>await\<close>. Only then (line 126) is its promise
  registered. A fetcher that throws at once lets the inner function run to its end,
  \<open>finally\<close> included, before the registration.
\<close>

datatype fetch_step = Done "jsval result" | AwaitExisting nat | AwaitPromise nat

definition fetch_resume :: "cache \<Rightarrow> frame \<Rightarrow> fetcher \<Rightarrow> fetch_step \<times> cache" where
  "fetch_resume s f fn =
     (if f_entry f \<noteq> None \<and> \<not> f_stale f then (Done (Inr (hit_result (the (f_entry f)))), s)
      else
        (case inFlight s (f_key f) of
           Some p \<Rightarrow> (AwaitExisting p, s)
         | None \<Rightarrow>
             (let s1 = s\<lparr> calls := Suc (calls s) \<rparr>;
                  p = length (promises s1)
              in case fn of
                   ThrowsSync err \<Rightarrow>
                     (let s2 = iife_finally s1 (f_key f)
                      in (AwaitPromise p,
                          s2\<lparr> promises := promises s2 @ [iife_catch f err],
                              inFlight := (inFlight s2)(f_key f \<mapsto> p) \<rparr>))
                 | Rejects err \<Rightarrow>
                     (AwaitPromise p,
                      s1\<lparr> promises := promises s1 @ [Pending],
                          inFlight := (inFlight s1)(f_key f \<mapsto> p) \<rparr>)
                 | Resolves v \<Rightarrow>
                     (AwaitPromise p,
                      s1\<lparr> promises := promises s1 @ [Pending],
                          inFlight := (inFlight s1)(f_key f \<mapsto> p) \<rparr>))))"

text \<open>
  The inner function after \<open>await fetcher()\<close> (lines 110 to 123), for a fetcher that
  returned a promise: on a value, \<open>set\<close> (inside the \<open>try\<close>, so a failed write goes to
  the \<open>catch\<close> as well); on an error, the \<open>catch\<close>; then \<open>finally\<close>. The promise \<open>p\<close>
  of the inner function settles.
\<close>

definition iife_resume ::
  "(string \<Rightarrow> string) \<Rightarrow> cache \<Rightarrow> frame \<Rightarrow> nat \<Rightarrow> fetcher \<Rightarrow> int \<Rightarrow> jsval option \<Rightarrow> cache" where
  "iife_resume H s f p fn now_set fault =
     (case fn of
        ThrowsSync err \<Rightarrow> s
      | Rejects err \<Rightarrow>
          (let s2 = iife_finally s (f_key f)
           in s2\<lparr> promises := (promises s2)[p := iife_catch f err] \<rparr>)
      | Resolves v \<Rightarrow>
          (case Cache_set H s now_set fault (f_key f) v (Some (f_ttlMs f)) of
             (Inr u, s1) \<Rightarrow>
               (let s2 = iife_finally s1 (f_key f)
                in s2\<lparr> promises := (promises s2)[p := Fulfilled v] \<rparr>)
           | (Inl err, s1) \<Rightarrow>
               (let s2 = iife_finally s1 (f_key f)
                in s2\<lparr> promises := (promises s2)[p := iife_catch f err] \<rparr>)))"

definition promise_at :: "cache \<Rightarrow> nat \<Rightarrow> promise" where
  "promise_at s p = (if p < length (promises s) then promises s ! p else Pending)"

text \<open>
  After the awaited promise: the caller that started the fetch (lines 128 to 134) and a
  caller that found it in the registry (lines 104 and 105). \<open>None\<close>: still pending.
\<close>

definition leader_finish :: "promise \<Rightarrow> jsval result option" where
  "leader_finish pr =
     (case pr of
        Pending \<Rightarrow> None
      | Rejected err \<Rightarrow> Some (Inl err)
      | Fulfilled r \<Rightarrow>
          Some (Inr (if truthy r \<and> typeof r = ''object'' \<and> has_prop ''source'' r \<and>
                        jsprop r ''source'' = JStr ''cache''
                     then r else origin_result r)))"

definition waiter_finish :: "promise \<Rightarrow> jsval result option" where
  "waiter_finish pr =
     (case pr of
        Pending \<Rightarrow> None
      | Rejected err \<Rightarrow> Some (Inl err)
      | Fulfilled v \<Rightarrow> Some (Inr (origin_result v)))"

text \<open>
  One call of \<open>fetch\<close> with no other caller running in between. \<open>None\<close>: the call
  awaits a promise of the registry that is still pending.
\<close>

record fetch_env =
  now_fetch :: int
  now_get :: int
  now_set :: int
  write_fault :: "jsval option"

definition Cache_fetch ::
  "(string \<Rightarrow> string) \<Rightarrow> cache \<Rightarrow> fetch_env \<Rightarrow> string \<Rightarrow> fetcher \<Rightarrow> fetch_options option
     \<Rightarrow> jsval result option \<times> cache" where
  "Cache_fetch H s env k fn options =
     (case fetch_enter H s (now_fetch env) (now_get env) k options of
        Inl err \<Rightarrow> (Some (Inl err), s)
      | Inr (f, s1) \<Rightarrow>
          (case fetch_resume s1 f fn of
             (Done r, s2) \<Rightarrow> (Some r, s2)
           | (AwaitExisting p, s2) \<Rightarrow> (waiter_finish (promise_at s2 p), s2)
           | (AwaitPromise p, s2) \<Rightarrow>
               (let s3 = iife_resume H s2 f p fn (now_set env) (write_fault env)
                in (leader_finish (promise_at s3 p), s3))))"

text \<open>
  Several callers of \<open>fetch\<close> with the same key, fetcher and options, interleaved at
  their suspension points. An event lets one caller run to its next suspension.
\<close>

datatype task = NotStarted | AfterGet frame | Waiting nat | Leading frame nat
  | Finished "jsval result"

datatype event =
    Call nat int int
  | Resume nat
  | Settle nat int "jsval option"
  | Finish nat

fun step ::
  "(string \<Rightarrow> string) \<Rightarrow> string \<Rightarrow> fetcher \<Rightarrow> fetch_options option \<Rightarrow> event
     \<Rightarrow> cache \<times> (nat \<Rightarrow> task) \<Rightarrow> cache \<times> (nat \<Rightarrow> task)" where
  "step H k fn options (Call i now now') (s, ts) =
     (case ts i of
        NotStarted \<Rightarrow>
          (case fetch_enter H s now now' k options of
             Inl err \<Rightarrow> (s, ts(i := Finished (Inl err)))
           | Inr (f, s') \<Rightarrow> (s', ts(i := AfterGet f)))
      | _ \<Rightarrow> (s, ts))"
| "step H k fn options (Resume i) (s, ts) =
     (case ts i of
        AfterGet f \<Rightarrow>
          (case fetch_resume s f fn of
             (Done r, s') \<Rightarrow> (s', ts(i := Finished r))
           | (AwaitExisting p, s') \<Rightarrow> (s', ts(i := Waiting p))
           | (AwaitPromise p, s') \<Rightarrow> (s', ts(i := Leading f p)))
      | _ \<Rightarrow> (s, ts))"
| "step H k fn options (Settle i now' fault) (s, ts) =
     (case ts i of
        Leading f p \<Rightarrow>
          (if promise_at s p = Pending then (iife_resume H s f p fn now' fault, ts) else (s, ts))
      | _ \<Rightarrow> (s, ts))"
| "step H k fn options (Finish i) (s, ts) =
     (case ts i of
        Waiting p \<Rightarrow>
          (case waiter_finish (promise_at s p) of
             None \<Rightarrow> (s, ts) | Some r \<Rightarrow> (s, ts(i := Finished r)))
      | Leading f p \<Rightarrow>
          (case leader_finish (promise_at s p) of
             None \<Rightarrow> (s, ts) | Some r \<Rightarrow> (s, ts(i := Finished r)))
      | _ \<Rightarrow> (s, ts))"

fun run ::
  "(string \<Rightarrow> string) \<Rightarrow> string \<Rightarrow> fetcher \<Rightarrow> fetch_options option \<Rightarrow> event list
     \<Rightarrow> cache \<times> (nat \<Rightarrow> task) \<Rightarrow> cache \<times> (nat \<Rightarrow> task)" where
  "run H k fn options [] c = c"
| "run H k fn options (ev # evs) c = run H k fn options evs (step H k fn options ev c)"

section \<open>The HTTP client: \<open>fetchWithRetry\<close>\<close>

text \<open>
  What can be thrown in http.ts: an \<open>ApiError\<close> (status code, and the status text of
  the response it was made from), a \<open>NetworkError\<close> (message, message of its cause),
  another \<open>Error\<close> (what the platform's \<open>fetch\<close> throws: a failed connection, an abort
  by the timeout), or a value that is no \<open>Error\<close> (as the string \<open>String(err)\<close>).
\<close>

datatype thrown =
    ApiError int string
  | NetworkError string string
  | OtherError string
  | NonError string

record response =
  status :: int
  statusText :: string

definition ok :: "response \<Rightarrow> bool" where
  "ok res = (200 \<le> status res \<and> status res \<le> 299)"

text \<open>What one call of \<open>fetchWithTimeout\<close> does.\<close>

datatype attempt_outcome = Responds response | Fails thrown

text \<open>\<open>backoff\<close> sleeps for this many milliseconds.\<close>

definition backoff :: "nat \<Rightarrow> int" where
  "backoff attempt = min (200 * 2 ^ attempt) 5000"

text \<open>
  The retry count is a JavaScript number that need not be whole (the configuration is
  checked for its range, 0 to 10, not for being an integer), so it is a rational here.
  The body of the \<open>try\<close> of one round of the loop, and its \<open>catch\<close>.
\<close>

datatype try_result = TReturn response | TContinue | TThrow thrown

definition try_body :: "attempt_outcome \<Rightarrow> nat \<Rightarrow> rat \<Rightarrow> try_result" where
  "try_body out attempt maxRetries =
     (case out of
        Fails err \<Rightarrow> TThrow err
      | Responds res \<Rightarrow>
          if \<not> ok res then
            (if status res \<ge> 400 \<and> status res < 500
               then TThrow (ApiError (status res) (statusText res))
             else if status res \<ge> 500 \<and> of_nat attempt < maxRetries then TContinue
             else TThrow (ApiError (status res) (statusText res)))
          else TReturn res)"

datatype catch_result = CThrow thrown | CContinue

definition catch_clause :: "thrown \<Rightarrow> nat \<Rightarrow> rat \<Rightarrow> catch_result" where
  "catch_clause err attempt maxRetries =
     (case err of
        ApiError code t \<Rightarrow>
          if code \<noteq> 0 \<and> code < 500 then CThrow err
          else if of_nat attempt < maxRetries then CContinue
          else CThrow err
      | NetworkError m c \<Rightarrow> if of_nat attempt < maxRetries then CContinue else CThrow err
      | OtherError m \<Rightarrow>
          if of_nat attempt < maxRetries then CContinue
          else CThrow (NetworkError ''Network request failed'' m)
      | NonError v \<Rightarrow>
          if of_nat attempt < maxRetries then CContinue
          else CThrow (NetworkError ''Network request failed'' v))"

text \<open>What \<open>fetchWithRetry\<close> did: its result, the calls of \<open>fetchWithTimeout\<close> it
  made, and the delays it slept.\<close>

record retry_result =
  outcome :: "thrown + response"
  attempts :: nat
  delays :: "int list"

text \<open>The code after the loop, reached when the loop ends by its condition: it has made
  no round at all, or its last round slept and went on (only the \<open>catch\<close> sets
  \<open>lastErr\<close>).\<close>

definition after_loop :: "thrown option \<Rightarrow> thrown" where
  "after_loop lastErr =
     (case lastErr of
        None \<Rightarrow> NetworkError ''Network request failed after retries'' ''undefined''
      | Some (ApiError c t) \<Rightarrow> ApiError c t
      | Some (NetworkError m c) \<Rightarrow> NetworkError m c
      | Some (OtherError m) \<Rightarrow> NetworkError ''Network request failed after retries'' m
      | Some (NonError v) \<Rightarrow> NetworkError ''Network request failed after retries'' v)"

text \<open>The loop; \<open>env i\<close> is what the call number \<open>i\<close> of \<open>fetchWithTimeout\<close> does.\<close>

function fetchWithRetry_loop ::
  "(nat \<Rightarrow> attempt_outcome) \<Rightarrow> rat \<Rightarrow> nat \<Rightarrow> thrown option \<Rightarrow> int list \<Rightarrow> retry_result" where
  "fetchWithRetry_loop env maxRetries attempt lastErr ds =
     (if of_nat attempt \<le> maxRetries then
        (case try_body (env attempt) attempt maxRetries of
           TReturn res \<Rightarrow> \<lparr> outcome = Inr res, attempts = Suc attempt, delays = ds \<rparr>
         | TContinue \<Rightarrow>
             fetchWithRetry_loop env maxRetries (Suc attempt) lastErr (ds @ [backoff attempt])
         | TThrow err \<Rightarrow>
             (case catch_clause err attempt maxRetries of
                CThrow e \<Rightarrow> \<lparr> outcome = Inl e, attempts = Suc attempt, delays = ds \<rparr>
              | CContinue \<Rightarrow>
                  fetchWithRetry_loop env maxRetries (Suc attempt) (Some err)
                    (ds @ [backoff attempt])))
      else \<lparr> outcome = Inl (after_loop lastErr), attempts = attempt, delays = ds \<rparr>)"
  by pat_completeness auto
termination
  by (relation "measure (\<lambda>(env, maxRetries, attempt, lastErr, ds).
          nat (\<lfloor>maxRetries\<rfloor> + 1 - int attempt))")
     (auto simp: le_floor_iff)

definition fetchWithRetry :: "(nat \<Rightarrow> attempt_outcome) \<Rightarrow> rat \<Rightarrow> retry_result" where
  "fetchWithRetry env retries = fetchWithRetry_loop env (min retries 5) 0 None []"

text \<open>The outcomes of an attempt that the retry policy speaks of: a response with a
  status of 500 or more, and a failure of the network (the platform's \<open>fetch\<close> throws,
  or the timeout aborts it).\<close>

definition server_or_network_failure :: "attempt_outcome \<Rightarrow> bool" where
  "server_or_network_failure out =
     (case out of
        Responds res \<Rightarrow> status res \<ge> 500
      | Fails err \<Rightarrow> (case err of OtherError m \<Rightarrow> True | _ \<Rightarrow> False))"

section \<open>The token: \<open>normalizeToken\<close>, \<open>isTokenExpired\<close>\<close>

record OAuthToken =
  access_token :: string
  refresh_token :: "string option"
  token_type :: "string option"
  scope :: "string option"
  expires_in :: "int option"
  expires_at :: "int option"

text \<open>The truth value of an optional number: \<open>undefined\<close> and \<open>0\<close> are false.\<close>

fun truthy_num :: "int option \<Rightarrow> bool" where
  "truthy_num None = False"
| "truthy_num (Some n) = (n \<noteq> 0)"

text \<open>In both functions \<open>now\<close> is the reading of \<open>Date.now()\<close>.\<close>

definition normalizeToken :: "int \<Rightarrow> OAuthToken \<Rightarrow> OAuthToken" where
  "normalizeToken now t =
     (if \<not> truthy_num (expires_at t) \<and> truthy_num (expires_in t)
      then t\<lparr> expires_at := Some (now + the (expires_in t) * 1000) \<rparr>
      else t)"

definition isTokenExpired :: "int \<Rightarrow> OAuthToken \<Rightarrow> int option \<Rightarrow> bool" where
  "isTokenExpired now token skewSec =
     (let skew = (case skewSec of None \<Rightarrow> 60 | Some x \<Rightarrow> x)
      in if \<not> truthy_num (expires_at token) then False
         else now \<ge> the (expires_at token) - skew * 1000)"

section \<open>Concrete inputs\<close>

text \<open>
  A stand-in for the digest, a cache with a TTL of one second and a window of half a
  second, the same cache holding under the key \<open>k\<close> an entry that expired at time 50,
  and two tokens.
\<close>

definition ex_hash :: "string \<Rightarrow> string" where
  "ex_hash k = k"

definition ex_empty :: cache where
  "ex_empty = \<lparr> opts = \<lparr> dir = ''/cache'', ttlMs = 1000, staleIfErrorMs = 500 \<rparr>,
     mem = Map.empty, inFlight = Map.empty, disk = Map.empty, promises = [], calls = 0 \<rparr>"

definition ex_entry :: CacheEntry where
  "ex_entry = \<lparr> key = ''k'', val = JStr ''v1'', cachedAt = 0, expiresAt = 50 \<rparr>"

definition ex_cache :: cache where
  "ex_cache = ex_empty\<lparr> mem := [''k'' \<mapsto> ex_entry] \<rparr>"

definition ex_error :: jsval where
  "ex_error = JError ''Network error'' None"

definition ex_env :: "int \<Rightarrow> fetch_env" where
  "ex_env t = \<lparr> now_fetch = t, now_get = t, now_set = t, write_fault = None \<rparr>"

definition ex_token :: "int option \<Rightarrow> int option \<Rightarrow> OAuthToken" where
  "ex_token ei ea = \<lparr> access_token = ''token'', refresh_token = None, token_type = None,
     scope = None, expires_in = ei, expires_at = ea \<rparr>"

definition ex_response :: "int \<Rightarrow> attempt_outcome" where
  "ex_response code = Responds \<lparr> status = code, statusText = [] \<rparr>"

section \<open>Reading and writing the cache\<close>

lemma Cache_get_keeps:
  "Cache_get H s now k = Inr (r, s') \<Longrightarrow>
   inFlight s' = inFlight s \<and> promises s' = promises s \<and> opts s' = opts s \<and> calls s' = calls s"
  by (auto simp: Cache_get_def split: option.splits sum.splits)

lemma jsonify_json:
  "is_json v \<Longrightarrow> jsonify v = v"
  "is_json_items xs \<Longrightarrow> jsonify_items xs = xs"
  "is_json_props fs \<Longrightarrow> jsonify_props fs = fs"
  by (induction v and xs and fs rule: jsonify_jsonify_items_jsonify_props.induct) auto

lemma jsonify_entry_object:
  "is_json (val e) \<Longrightarrow> jsonify (entry_object e) = entry_object e"
  using jsonify_json(1) [of "val e"]
  by (cases "val e") (auto simp: entry_object_def)

text \<open>
  C5, as amended. \<open>set(k, v, t)\<close> writes the file of the key and then the memory: both
  hold an entry with the key \<open>k\<close>, the value \<open>v\<close> and \<open>expiresAt = cachedAt + t\<close>,
  where \<open>t\<close> is the cache-wide TTL when the argument is left out, and when the write is
  rejected \<open>set\<close> throws the error and the memory is as it was. A \<open>get(k)\<close> that
  follows returns this entry from memory, and reports it stale exactly when its reading
  of the clock is greater than \<open>expiresAt\<close>. So a \<open>get\<close> that reads the same time as
  the \<open>set\<close> finds the entry fresh when \<open>t\<close> is not negative, and stale when it is.
\<close>

theorem set_then_get:
  "(\<exists>e s'. Cache_set H s now None k v ttl = (Inr (), s') \<and>
      disk s' (fileForKey H (opts s) k) = Some (Text (Encodes (jsonify (entry_object e)))) \<and>
      mem s' k = Some e \<and>
      key e = k \<and> val e = v \<and> cachedAt e = now \<and>
      expiresAt e = cachedAt e + (case ttl of None \<Rightarrow> ttlMs (opts s) | Some t \<Rightarrow> t) \<and>
      Cache_get H s' now' k =
        Inr (\<lparr> entry = Some e, stale = (now' > expiresAt e), source = Src_memory \<rparr>, s') \<and>
      (0 \<le> (case ttl of None \<Rightarrow> ttlMs (opts s) | Some t \<Rightarrow> t) \<longrightarrow>
         Cache_get H s' now k =
           Inr (\<lparr> entry = Some e, stale = False, source = Src_memory \<rparr>, s')) \<and>
      ((case ttl of None \<Rightarrow> ttlMs (opts s) | Some t \<Rightarrow> t) < 0 \<longrightarrow>
         Cache_get H s' now k =
           Inr (\<lparr> entry = Some e, stale = True, source = Src_memory \<rparr>, s'))) \<and>
   Cache_set H s now (Some err) k v ttl = (Inl err, s)"
  by (simp add: Cache_set_def fs_writeFile_def Cache_get_def Let_def)

theorem set_then_get_witness:
  "(\<exists>e s'. Cache_set ex_hash ex_empty 0 None ''k'' (JStr ''v'') None = (Inr (), s') \<and>
      val e = JStr ''v'' \<and> expiresAt e = 1000 \<and>
      Cache_get ex_hash s' 0 ''k'' =
        Inr (\<lparr> entry = Some e, stale = False, source = Src_memory \<rparr>, s') \<and>
      Cache_get ex_hash s' 1001 ''k'' =
        Inr (\<lparr> entry = Some e, stale = True, source = Src_memory \<rparr>, s')) \<and>
   Cache_set ex_hash ex_empty 0 (Some ex_error) ''k'' (JStr ''v'') None = (Inl ex_error, ex_empty)"
proof -
  have t: "ttlMs (opts ex_empty) = 1000"
    by (simp add: ex_empty_def)
  from set_then_get [of ex_hash ex_empty 0 "''k''" "JStr ''v''" None 1001 ex_error]
  obtain e s' where
    "Cache_set ex_hash ex_empty 0 None ''k'' (JStr ''v'') None = (Inr (), s')"
    "val e = JStr ''v''" "expiresAt e = 1000"
    "Cache_get ex_hash s' 1001 ''k'' =
       Inr (\<lparr> entry = Some e, stale = True, source = Src_memory \<rparr>, s')"
    "Cache_get ex_hash s' 0 ''k'' =
       Inr (\<lparr> entry = Some e, stale = False, source = Src_memory \<rparr>, s')"
    and "Cache_set ex_hash ex_empty 0 (Some ex_error) ''k'' (JStr ''v'') None =
       (Inl ex_error, ex_empty)"
    unfolding t by auto
  then show ?thesis by blast
qed

text \<open>The claim as it stands fails for a negative TTL: after \<open>set("k", "v", -1)\<close> at time 0
  a \<open>get("k")\<close> at the same time 0 returns the entry with \<open>stale = true\<close>.\<close>

theorem set_then_get_counterexample:
  "fst (Cache_set ex_hash ex_empty 0 None ''k'' (JStr ''v'') (Some (- 1))) = Inr () \<and>
   Cache_get ex_hash (snd (Cache_set ex_hash ex_empty 0 None ''k'' (JStr ''v'') (Some (- 1)))) 0
       ''k'' =
     Inr (\<lparr> entry = Some \<lparr> key = ''k'', val = JStr ''v'', cachedAt = 0, expiresAt = - 1 \<rparr>,
            stale = True, source = Src_memory \<rparr>,
          snd (Cache_set ex_hash ex_empty 0 None ''k'' (JStr ''v'') (Some (- 1))))"
  by (simp add: Cache_set_def fs_writeFile_def Cache_get_def Let_def ex_empty_def)

text \<open>What \<open>isCacheEntry\<close> accepts: an object with a string \<open>key\<close>, some \<open>value\<close>, and
  numbers \<open>cachedAt\<close> and \<open>expiresAt\<close>.\<close>

lemma isCacheEntry_iff:
  "isCacheEntry j =
     (\<exists>fs s v c x. j = JObj fs \<and> map_of fs ''key'' = Some (JStr s) \<and>
        map_of fs ''value'' = Some v \<and> map_of fs ''cachedAt'' = Some (JNum c) \<and>
        map_of fs ''expiresAt'' = Some (JNum x))"
proof -
  have t: "\<And>u. (typeof u = ''string'') = (\<exists>s. u = JStr s)"
          "\<And>u. (typeof u = ''number'') = (\<exists>n. u = JNum n)"
    subgoal for u by (cases u) auto
    subgoal for u by (cases u) auto
    done
  show ?thesis
    by (cases j) (auto simp: isCacheEntry_def t split: option.splits)
qed

text \<open>
  C6. With no entry in memory, a file of the key whose text does not parse, or parses to
  a value that \<open>isCacheEntry\<close> rejects, or to an entry stored under another key, makes
  \<open>get\<close> return a miss (no entry, \<open>stale = false\<close>, source \<open>null\<close>) and not an error.
\<close>

theorem get_corrupt_is_miss:
  assumes "mem s k = None"
    and "disk s (fileForKey H (opts s) k) = Some (Text t)"
    and "t = Malformed \<or> (\<exists>j. t = Encodes j \<and> (\<not> isCacheEntry j \<or> jsprop j ''key'' \<noteq> JStr k))"
  shows "Cache_get H s now k = Inr (\<lparr> entry = None, stale = False, source = Src_null \<rparr>, s)"
  using assms
  by (auto simp: Cache_get_def readDisk_def readDisk_try_def fs_readFile_def JSON_parse_def
      SyntaxError_def split: option.splits sum.splits)

theorem get_corrupt_is_miss_witness:
  "Cache_get ex_hash
     (ex_empty\<lparr> disk := [fileForKey ex_hash (opts ex_empty) ''k'' \<mapsto>
        Text (Encodes (JObj [(''key'', JStr ''k''), (''value'', JNull)]))] \<rparr>) 7 ''k''
   = Inr (\<lparr> entry = None, stale = False, source = Src_null \<rparr>,
          ex_empty\<lparr> disk := [fileForKey ex_hash (opts ex_empty) ''k'' \<mapsto>
        Text (Encodes (JObj [(''key'', JStr ''k''), (''value'', JNull)]))] \<rparr>) \<and>
   Cache_get ex_hash
     (ex_empty\<lparr> disk := [fileForKey ex_hash (opts ex_empty) ''k'' \<mapsto> Text Malformed] \<rparr>) 7 ''k''
   = Inr (\<lparr> entry = None, stale = False, source = Src_null \<rparr>,
          ex_empty\<lparr> disk := [fileForKey ex_hash (opts ex_empty) ''k'' \<mapsto> Text Malformed] \<rparr>) \<and>
   Cache_get ex_hash
     (ex_empty\<lparr> disk := [fileForKey ex_hash (opts ex_empty) ''k'' \<mapsto>
        Text (Encodes (entry_object (ex_entry\<lparr> key := ''other'' \<rparr>)))] \<rparr>) 7 ''k''
   = Inr (\<lparr> entry = None, stale = False, source = Src_null \<rparr>,
          ex_empty\<lparr> disk := [fileForKey ex_hash (opts ex_empty) ''k'' \<mapsto>
        Text (Encodes (entry_object (ex_entry\<lparr> key := ''other'' \<rparr>)))] \<rparr>)"
  using
    get_corrupt_is_miss [of
      "ex_empty\<lparr> disk := [fileForKey ex_hash (opts ex_empty) ''k'' \<mapsto>
         Text (Encodes (JObj [(''key'', JStr ''k''), (''value'', JNull)]))] \<rparr>"
      "''k''" ex_hash "Encodes (JObj [(''key'', JStr ''k''), (''value'', JNull)])" 7]
    get_corrupt_is_miss [of
      "ex_empty\<lparr> disk := [fileForKey ex_hash (opts ex_empty) ''k'' \<mapsto> Text Malformed] \<rparr>"
      "''k''" ex_hash Malformed 7]
    get_corrupt_is_miss [of
      "ex_empty\<lparr> disk := [fileForKey ex_hash (opts ex_empty) ''k'' \<mapsto>
         Text (Encodes (entry_object (ex_entry\<lparr> key := ''other'' \<rparr>)))] \<rparr>"
      "''k''" ex_hash "Encodes (entry_object (ex_entry\<lparr> key := ''other'' \<rparr>))" 7]
  by (simp add: ex_empty_def ex_entry_def entry_object_def isCacheEntry_def)

text \<open>
  C7. \<open>get\<close> returns the entry that is stored, and reports it stale exactly when its
  reading of the clock is greater than the entry's \<open>expiresAt\<close>: the entry of the
  memory as it is, with the state unchanged; with no entry in memory, the entry that
  the file of the key holds, with its key, value and two times, which it also puts
  into memory. Whatever entry \<open>get\<close> returns, an \<open>expiresAt\<close> equal to the clock is
  fresh, and a \<open>get\<close> at any later time returns the same entry, value included,
  whatever its age.
\<close>

theorem get_stale_strict:
  "(mem s k = Some e \<longrightarrow>
      Cache_get H s now k =
        Inr (\<lparr> entry = Some e, stale = (now > expiresAt e), source = Src_memory \<rparr>, s)) \<and>
   (mem s k = None \<and>
    disk s (fileForKey H (opts s) k) = Some (Text (Encodes (JObj fs))) \<and>
    map_of fs ''key'' = Some (JStr k) \<and> map_of fs ''value'' = Some v \<and>
    map_of fs ''cachedAt'' = Some (JNum c) \<and> map_of fs ''expiresAt'' = Some (JNum x) \<longrightarrow>
      Cache_get H s now k =
        Inr (\<lparr> entry = Some \<lparr> key = k, val = v, cachedAt = c, expiresAt = x \<rparr>,
               stale = (now > x), source = Src_disk \<rparr>,
             s\<lparr> mem := (mem s)(k \<mapsto> \<lparr> key = k, val = v, cachedAt = c, expiresAt = x \<rparr>) \<rparr>)) \<and>
   (Cache_get H s now k = Inr (r, s') \<and> entry r = Some e' \<longrightarrow>
      stale r = (now > expiresAt e') \<and>
      (now = expiresAt e' \<longrightarrow> \<not> stale r) \<and>
      Cache_get H s' later k =
        Inr (\<lparr> entry = Some e', stale = (later > expiresAt e'), source = Src_memory \<rparr>, s'))"
proof (intro conjI impI)
  assume "mem s k = Some e"
  then show "Cache_get H s now k =
        Inr (\<lparr> entry = Some e, stale = (now > expiresAt e), source = Src_memory \<rparr>, s)"
    by (simp add: Cache_get_def)
next
  assume a: "mem s k = None \<and>
    disk s (fileForKey H (opts s) k) = Some (Text (Encodes (JObj fs))) \<and>
    map_of fs ''key'' = Some (JStr k) \<and> map_of fs ''value'' = Some v \<and>
    map_of fs ''cachedAt'' = Some (JNum c) \<and> map_of fs ''expiresAt'' = Some (JNum x)"
  then have "readDisk H s k = Inr (Some \<lparr> key = k, val = v, cachedAt = c, expiresAt = x \<rparr>)"
    by (simp add: readDisk_def readDisk_try_def fs_readFile_def JSON_parse_def
        isCacheEntry_def entry_of_def)
  with a show "Cache_get H s now k =
        Inr (\<lparr> entry = Some \<lparr> key = k, val = v, cachedAt = c, expiresAt = x \<rparr>,
               stale = (now > x), source = Src_disk \<rparr>,
             s\<lparr> mem := (mem s)(k \<mapsto> \<lparr> key = k, val = v, cachedAt = c, expiresAt = x \<rparr>) \<rparr>)"
    by (simp add: Cache_get_def)
next
  assume b: "Cache_get H s now k = Inr (r, s') \<and> entry r = Some e'"
  then show "stale r = (now > expiresAt e')"
    by (auto simp: Cache_get_def split: option.splits sum.splits)
  from b show "\<not> stale r" if "now = expiresAt e'"
    using that by (auto simp: Cache_get_def split: option.splits sum.splits)
  from b show "Cache_get H s' later k =
        Inr (\<lparr> entry = Some e', stale = (later > expiresAt e'), source = Src_memory \<rparr>, s')"
    by (auto simp: Cache_get_def split: option.splits sum.splits)
qed

theorem get_stale_strict_witness:
  "Cache_get ex_hash ex_cache 50 ''k'' =
     Inr (\<lparr> entry = Some ex_entry, stale = False, source = Src_memory \<rparr>, ex_cache) \<and>
   Cache_get ex_hash ex_cache 51 ''k'' =
     Inr (\<lparr> entry = Some ex_entry, stale = True, source = Src_memory \<rparr>, ex_cache) \<and>
   Cache_get ex_hash
     (ex_empty\<lparr> disk := [fileForKey ex_hash (opts ex_empty) ''k'' \<mapsto>
        Text (Encodes (entry_object ex_entry))] \<rparr>) 51 ''k'' =
     Inr (\<lparr> entry = Some ex_entry, stale = True, source = Src_disk \<rparr>,
          ex_empty\<lparr> disk := [fileForKey ex_hash (opts ex_empty) ''k'' \<mapsto>
             Text (Encodes (entry_object ex_entry))],
            mem := [''k'' \<mapsto> ex_entry] \<rparr>)"
proof -
  let ?fs = "[(''key'', JStr ''k''), (''value'', JStr ''v1''), (''cachedAt'', JNum 0),
              (''expiresAt'', JNum 50)]"
  let ?s = "ex_empty\<lparr> disk := [fileForKey ex_hash (opts ex_empty) ''k'' \<mapsto>
              Text (Encodes (entry_object ex_entry))] \<rparr>"
  have m: "mem ex_cache ''k'' = Some ex_entry"
    by (simp add: ex_cache_def)
  have e: "ex_entry = \<lparr> key = ''k'', val = JStr ''v1'', cachedAt = 0, expiresAt = 50 \<rparr>"
    by (simp add: ex_entry_def)
  have d: "mem ?s ''k'' = None \<and>
      disk ?s (fileForKey ex_hash (opts ?s) ''k'') = Some (Text (Encodes (JObj ?fs))) \<and>
      map_of ?fs ''key'' = Some (JStr ''k'') \<and> map_of ?fs ''value'' = Some (JStr ''v1'') \<and>
      map_of ?fs ''cachedAt'' = Some (JNum 0) \<and> map_of ?fs ''expiresAt'' = Some (JNum 50)"
    by (simp add: ex_empty_def entry_object_def ex_entry_def)
  have mem_hit: "Cache_get ex_hash ex_cache t ''k'' =
      Inr (\<lparr> entry = Some ex_entry, stale = (t > expiresAt ex_entry), source = Src_memory \<rparr>,
           ex_cache)" for t
    using get_stale_strict [of ex_cache "''k''" ex_entry ex_hash t] m by blast
  have disk_hit: "Cache_get ex_hash ?s 51 ''k'' =
      Inr (\<lparr> entry = Some \<lparr> key = ''k'', val = JStr ''v1'', cachedAt = 0, expiresAt = 50 \<rparr>,
             stale = (51 > (50 :: int)), source = Src_disk \<rparr>,
           ?s\<lparr> mem := (mem ?s)(''k'' \<mapsto>
             \<lparr> key = ''k'', val = JStr ''v1'', cachedAt = 0, expiresAt = 50 \<rparr>) \<rparr>)"
    using get_stale_strict [of ?s "''k''" ex_entry ex_hash 51 ?fs "JStr ''v1''" 0 50] d
    by blast
  have "Cache_get ex_hash ex_cache 50 ''k'' =
      Inr (\<lparr> entry = Some ex_entry, stale = False, source = Src_memory \<rparr>, ex_cache)"
    using mem_hit [of 50] by (simp add: ex_entry_def)
  moreover have "Cache_get ex_hash ex_cache 51 ''k'' =
      Inr (\<lparr> entry = Some ex_entry, stale = True, source = Src_memory \<rparr>, ex_cache)"
    using mem_hit [of 51] by (simp add: ex_entry_def)
  moreover have "Cache_get ex_hash ?s 51 ''k'' =
      Inr (\<lparr> entry = Some ex_entry, stale = True, source = Src_disk \<rparr>,
           ex_empty\<lparr> disk := [fileForKey ex_hash (opts ex_empty) ''k'' \<mapsto>
              Text (Encodes (entry_object ex_entry))],
             mem := [''k'' \<mapsto> ex_entry] \<rparr>)"
    using disk_hit by (simp add: e [symmetric] ex_empty_def)
  ultimately show ?thesis by blast
qed

text \<open>The entry also outlives the memory: when the value is JSON data, a cache that has
  lost its memory reads the entry back from the file that \<open>set\<close> wrote.\<close>

lemma set_survives_on_disk:
  assumes "is_json v" and "Cache_set H s now None k v ttl = (Inr (), s')"
  shows "Cache_get H (s'\<lparr> mem := Map.empty \<rparr>) later k =
     Inr (\<lparr> entry = Some \<lparr> key = k, val = v, cachedAt = now,
                expiresAt = now + (case ttl of None \<Rightarrow> ttlMs (opts s) | Some t \<Rightarrow> t) \<rparr>,
            stale = (later > now + (case ttl of None \<Rightarrow> ttlMs (opts s) | Some t \<Rightarrow> t)),
            source = Src_disk \<rparr>,
          s'\<lparr> mem := [k \<mapsto> \<lparr> key = k, val = v, cachedAt = now,
                expiresAt = now + (case ttl of None \<Rightarrow> ttlMs (opts s) | Some t \<Rightarrow> t) \<rparr>] \<rparr>)"
proof -
  define T where "T = (case ttl of None \<Rightarrow> ttlMs (opts s) | Some t \<Rightarrow> t)"
  define e where "e = \<lparr> key = k, val = v, cachedAt = now, expiresAt = now + T \<rparr>"
  have j: "jsonify (entry_object e) = entry_object e"
    using assms(1) by (simp add: jsonify_entry_object e_def)
  have s': "s' = s\<lparr> disk := (disk s)(fileForKey H (opts s) k \<mapsto> Text (Encodes (entry_object e))),
                   mem := (mem s)(k \<mapsto> e) \<rparr>"
    using assms(2) j by (simp add: Cache_set_def fs_writeFile_def Let_def e_def T_def)
  have rd: "readDisk H (s'\<lparr> mem := Map.empty \<rparr>) k = Inr (Some e)"
    by (simp add: s' readDisk_def readDisk_try_def fs_readFile_def JSON_parse_def
        isCacheEntry_def entry_of_def entry_object_def e_def)
  have "Cache_get H (s'\<lparr> mem := Map.empty \<rparr>) later k =
      Inr (\<lparr> entry = Some e, stale = (later > expiresAt e), source = Src_disk \<rparr>,
           s'\<lparr> mem := [k \<mapsto> e] \<rparr>)"
    by (simp add: Cache_get_def rd)
  then show ?thesis
    by (simp add: e_def T_def)
qed

text \<open>
  C10. \<open>get\<close> never raises, whatever the file system holds: it always returns a result.
  The result has an entry exactly when memory holds one for the key or the file of the
  key parses to a value that passes \<open>isCacheEntry\<close> and carries the requested key. A
  file that cannot be read, whatever the error, gives a miss.
\<close>

theorem get_never_raises:
  "(\<exists>r s'. Cache_get H s now k = Inr (r, s') \<and>
      ((entry r \<noteq> None) =
         (mem s k \<noteq> None \<or>
          (\<exists>j. disk s (fileForKey H (opts s) k) = Some (Text (Encodes j)) \<and>
               isCacheEntry j \<and> jsprop j ''key'' = JStr k)))) \<and>
   (mem s k = None \<and> disk s (fileForKey H (opts s) k) = Some (Unreadable err) \<longrightarrow>
      Cache_get H s now k = Inr (\<lparr> entry = None, stale = False, source = Src_null \<rparr>, s))"
  by (auto simp: Cache_get_def readDisk_def readDisk_try_def fs_readFile_def JSON_parse_def
      SyntaxError_def ENOENT_def split: option.splits sum.splits disk_file.splits file_text.splits)

theorem get_never_raises_witness:
  "Cache_get ex_hash
     (ex_empty\<lparr> disk := [fileForKey ex_hash (opts ex_empty) ''k'' \<mapsto>
        Unreadable (JError ''EACCES: permission denied'' (Some ''EACCES''))] \<rparr>) 7 ''k''
   = Inr (\<lparr> entry = None, stale = False, source = Src_null \<rparr>,
          ex_empty\<lparr> disk := [fileForKey ex_hash (opts ex_empty) ''k'' \<mapsto>
        Unreadable (JError ''EACCES: permission denied'' (Some ''EACCES''))] \<rparr>)"
  using
    get_never_raises [of ex_hash
      "ex_empty\<lparr> disk := [fileForKey ex_hash (opts ex_empty) ''k'' \<mapsto>
         Unreadable (JError ''EACCES: permission denied'' (Some ''EACCES''))] \<rparr>"
      7 "''k''" "JError ''EACCES: permission denied'' (Some ''EACCES'')"]
  by (simp add: ex_empty_def)

section \<open>Fetching\<close>

text \<open>
  C2. Let a call of \<open>fetch\<close> find no fresh entry and no fetch in flight, so that it runs
  the fetcher, and let the fetcher fail with \<open>err\<close>. If \<open>get\<close> found an entry and the
  time from its \<open>expiresAt\<close> to the clock reading of \<open>fetch\<close> is at most the window,
  \<open>fetch\<close> returns the old value with \<open>stale = true\<close> and \<open>err\<close> attached. If that
  time is longer than the window, or \<open>get\<close> found no entry, \<open>fetch\<close> rejects with
  \<open>err\<close> itself.
\<close>

theorem fetch_stale_if_error:
  assumes "Cache_get H s (now_get env) k = Inr (r, s1)"
    and "inFlight s k = None"
    and "entry r = None \<or> stale r"
    and "fn = Rejects err \<or> fn = ThrowsSync err"
  shows "(\<forall>e. entry r = Some e \<and>
              now_fetch env - expiresAt e \<le> option_staleIfErrorMs s options \<longrightarrow>
            fst (Cache_fetch H s env k fn options) = Some (Inr (stale_result e err)) \<and>
            jsprop (stale_result e err) ''value'' = val e \<and>
            jsprop (stale_result e err) ''stale'' = JBool True \<and>
            jsprop (stale_result e err) ''error'' = err) \<and>
         (\<forall>e. entry r = Some e \<and>
              now_fetch env - expiresAt e > option_staleIfErrorMs s options \<longrightarrow>
            fst (Cache_fetch H s env k fn options) = Some (Inl err)) \<and>
         (entry r = None \<longrightarrow> fst (Cache_fetch H s env k fn options) = Some (Inl err))"
proof -
  have "inFlight s1 k = None"
    using Cache_get_keeps [OF assms(1)] assms(2) by simp
  with assms show ?thesis
    by (auto simp: Cache_fetch_def fetch_enter_def fetch_resume_def iife_resume_def
        iife_catch_def iife_finally_def leader_finish_def promise_at_def stale_result_def
        Let_def nth_append)
qed

theorem fetch_stale_if_error_witness:
  "fst (Cache_fetch ex_hash ex_cache (ex_env 60) ''k'' (Rejects ex_error) None)
     = Some (Inr (stale_result ex_entry ex_error)) \<and>
   fst (Cache_fetch ex_hash ex_cache (ex_env 660) ''k'' (Rejects ex_error) None)
     = Some (Inl ex_error) \<and>
   fst (Cache_fetch ex_hash ex_empty (ex_env 60) ''k'' (Rejects ex_error) None)
     = Some (Inl ex_error)"
proof -
  have g1: "Cache_get ex_hash ex_cache (now_get (ex_env 60)) ''k'' =
      Inr (\<lparr> entry = Some ex_entry, stale = True, source = Src_memory \<rparr>, ex_cache)"
    by (simp add: Cache_get_def ex_cache_def ex_entry_def ex_env_def)
  have g2: "Cache_get ex_hash ex_cache (now_get (ex_env 660)) ''k'' =
      Inr (\<lparr> entry = Some ex_entry, stale = True, source = Src_memory \<rparr>, ex_cache)"
    by (simp add: Cache_get_def ex_cache_def ex_entry_def ex_env_def)
  have g3: "Cache_get ex_hash ex_empty (now_get (ex_env 60)) ''k'' =
      Inr (\<lparr> entry = None, stale = False, source = Src_null \<rparr>, ex_empty)"
    by (simp add: Cache_get_def readDisk_def readDisk_try_def fs_readFile_def ENOENT_def
        ex_empty_def)
  have i1: "inFlight ex_cache ''k'' = None"
    by (simp add: ex_cache_def ex_empty_def)
  have i3: "inFlight ex_empty ''k'' = None"
    by (simp add: ex_empty_def)
  from fetch_stale_if_error [OF g1 i1, of "Rejects ex_error" ex_error None]
       fetch_stale_if_error [OF g2 i1, of "Rejects ex_error" ex_error None]
       fetch_stale_if_error [OF g3 i3, of "Rejects ex_error" ex_error None]
  show ?thesis
    by (simp add: ex_env_def ex_entry_def option_staleIfErrorMs_def ex_cache_def ex_empty_def)
qed

text \<open>
  A fetched value with no own property \<open>source\<close> equal to \<open>"cache"\<close> comes back as
  \<open>{value, source: "origin", stale: false}\<close>, when the write of \<open>set\<close> succeeds.
\<close>

lemma fetch_success_shape:
  assumes "Cache_get H s (now_get env) k = Inr (r, s1)"
    and "inFlight s k = None"
    and "entry r = None \<or> stale r"
    and "write_fault env = None"
    and "\<not> (truthy v \<and> typeof v = ''object'' \<and> has_prop ''source'' v \<and>
            jsprop v ''source'' = JStr ''cache'')"
  shows "fst (Cache_fetch H s env k (Resolves v) options) = Some (Inr (origin_result v))"
proof -
  have "inFlight s1 k = None"
    using Cache_get_keeps [OF assms(1)] assms(2) by simp
  with assms show ?thesis
    by (auto simp: Cache_fetch_def fetch_enter_def fetch_resume_def iife_resume_def
        iife_finally_def leader_finish_def promise_at_def Cache_set_def fs_writeFile_def
        Let_def nth_append)
qed

text \<open>
  C4. The claim is that \<open>fetch\<close> returns \<open>{value: v, source: "origin", stale: false}\<close>
  for every value \<open>v\<close> the fetcher resolves to. On an empty cache the fetcher resolves
  to the object \<open>{source: "cache"}\<close>. The test of lines 130 to 132 takes this value for
  the stale answer of the \<open>catch\<close>, and \<open>fetch\<close> returns the value itself: the result
  has no \<open>value\<close> and no \<open>stale\<close> property, and its \<open>source\<close> is \<open>"cache"\<close>.
\<close>

theorem fetch_origin_value_taken_for_stale:
  "fst (Cache_fetch ex_hash ex_empty (ex_env 60) ''k''
         (Resolves (JObj [(''source'', JStr ''cache'')])) None)
     = Some (Inr (JObj [(''source'', JStr ''cache'')])) \<and>
   jsprop (JObj [(''source'', JStr ''cache'')]) ''value'' = JUndefined \<and>
   jsprop (JObj [(''source'', JStr ''cache'')]) ''stale'' = JUndefined \<and>
   JObj [(''source'', JStr ''cache'')] \<noteq> origin_result (JObj [(''source'', JStr ''cache'')])"
  by (simp add: Cache_fetch_def fetch_enter_def fetch_resume_def iife_resume_def
        iife_finally_def leader_finish_def promise_at_def Cache_set_def fs_writeFile_def
        Cache_get_def readDisk_def readDisk_try_def fs_readFile_def ENOENT_def
        ex_empty_def ex_env_def ex_hash_def option_ttlMs_def option_staleIfErrorMs_def
        origin_result_def Let_def)

text \<open>
  What holds of the registry: a caller that finds no fresh entry and no promise under
  the key invokes the fetcher once and registers a promise; a caller that finds a
  promise there does not invoke the fetcher; when the promise of a fetcher that
  returned one settles, the key leaves the registry.
\<close>

lemma fetch_resume_leads:
  assumes "f_entry f = None \<or> f_stale f" and "inFlight s (f_key f) = None"
  shows "\<exists>p s'. fetch_resume s f fn = (AwaitPromise p, s') \<and>
                inFlight s' (f_key f) = Some p \<and> calls s' = Suc (calls s)"
  using assms
  by (cases fn) (auto simp: fetch_resume_def iife_finally_def Let_def)

lemma fetch_resume_joins:
  assumes "f_entry f = None \<or> f_stale f" and "inFlight s (f_key f) = Some p"
  shows "fetch_resume s f fn = (AwaitExisting p, s)"
  using assms
  by (auto simp: fetch_resume_def)

lemma iife_resume_deregisters:
  assumes "fn = Rejects err \<or> fn = Resolves v"
  shows "inFlight (iife_resume H s f p fn now fault) (f_key f) = None"
  using assms
  by (auto simp: iife_resume_def iife_finally_def Let_def split: sum.splits prod.splits)

text \<open>A fetcher that throws before it returns a promise: the \<open>finally\<close> has run before
  the registration, so the settled promise stays in the registry, and a later caller is
  handed its error without the fetcher being invoked again.\<close>

lemma fetch_sync_throw_stays_registered:
  "(let (s, ts) = run ex_hash ''k'' (ThrowsSync ex_error) None
       [Call 0 60 60, Resume 0, Finish 0, Call 1 900 900, Resume 1, Finish 1]
       (ex_empty, \<lambda>i. NotStarted)
    in ts 0 = Finished (Inl ex_error) \<and> ts 1 = Finished (Inl ex_error) \<and>
       inFlight s ''k'' = Some 0 \<and> calls s = 1)"
  by (simp add: fetch_enter_def fetch_resume_def iife_finally_def iife_catch_def
        leader_finish_def waiter_finish_def promise_at_def Cache_get_def readDisk_def
        readDisk_try_def fs_readFile_def ENOENT_def ex_empty_def ex_error_def ex_hash_def
        option_ttlMs_def option_staleIfErrorMs_def Let_def)

text \<open>The two ways out of \<open>fetch\<close> after the shared promise, on the stale answer of the
  \<open>catch\<close>: the caller that started the fetch passes it on, a caller that waited wraps
  it.\<close>

lemma leader_and_waiter_differ:
  "leader_finish (Fulfilled (stale_result e err)) = Some (Inr (stale_result e err)) \<and>
   waiter_finish (Fulfilled (stale_result e err)) =
     Some (Inr (origin_result (stale_result e err))) \<and>
   stale_result e err \<noteq> origin_result (stale_result e err)"
  by (simp add: leader_finish_def waiter_finish_def stale_result_def origin_result_def)

text \<open>
  C1. The claim is that callers of \<open>fetch\<close> that overlap on a key see the same result of
  the one fetch. Two callers find the entry of \<open>ex_cache\<close>, stale for 10 ms, at time
  60; the first starts the fetch, the second finds its promise in the registry; the
  fetcher is rejected. The fetcher has been invoked once, and the registry is empty
  again. The first caller returns the old value with \<open>stale = true\<close> and the error
  attached. The second caller returns \<open>{value, source: "origin", stale: false}\<close> whose
  \<open>value\<close> is that whole stale answer: lines 104 and 105 do not make the test of
  lines 130 to 132.
\<close>

theorem fetch_waiter_wraps_stale_answer:
  "(let (s, ts) = run ex_hash ''k'' (Rejects ex_error) None
       [Call 0 60 60, Call 1 60 60, Resume 0, Resume 1, Settle 0 60 None, Finish 0, Finish 1]
       (ex_cache, \<lambda>i. NotStarted)
    in calls s = 1 \<and> inFlight s ''k'' = None \<and>
       ts 0 = Finished (Inr (stale_result ex_entry ex_error)) \<and>
       ts 1 = Finished (Inr (origin_result (stale_result ex_entry ex_error))) \<and>
       ts 0 \<noteq> ts 1)"
  by (simp add: fetch_enter_def fetch_resume_def iife_resume_def
        iife_finally_def iife_catch_def leader_finish_def waiter_finish_def promise_at_def
        Cache_get_def ex_cache_def ex_empty_def ex_entry_def ex_error_def ex_hash_def
        option_ttlMs_def option_staleIfErrorMs_def stale_result_def origin_result_def
        Let_def)

section \<open>Retrying\<close>

declare fetchWithRetry_loop.simps [simp del]

lemma loop_retry_once:
  assumes "server_or_network_failure (env a)" and "of_nat a < M"
  shows "\<exists>le'. fetchWithRetry_loop env M a le ds =
               fetchWithRetry_loop env M (Suc a) le' (ds @ [backoff a])"
proof (cases "env a")
  case (Responds res)
  with assms have "try_body (env a) a M = TContinue"
    by (simp add: server_or_network_failure_def try_body_def ok_def)
  with assms(2) show ?thesis
    by (subst fetchWithRetry_loop.simps) auto
next
  case (Fails err)
  with assms obtain m where "err = OtherError m"
    by (auto simp: server_or_network_failure_def split: thrown.splits)
  with Fails assms(2)
  have "try_body (env a) a M = TThrow err" "catch_clause err a M = CContinue"
    by (simp_all add: try_body_def catch_clause_def)
  with assms(2) show ?thesis
    by (subst fetchWithRetry_loop.simps) auto
qed

lemma loop_retry_prefix:
  "\<forall>i<r. server_or_network_failure (env (a + i)) \<Longrightarrow> of_nat (a + r) \<le> M \<Longrightarrow>
   \<exists>le'. fetchWithRetry_loop env M a le ds =
         fetchWithRetry_loop env M (a + r) le' (ds @ map backoff [a..<a + r])"
proof (induction r arbitrary: a le ds)
  case 0
  then show ?case by auto
next
  case (Suc r)
  have "server_or_network_failure (env a)"
    using Suc.prems(1) by force
  moreover have "(of_nat a :: rat) < of_nat (a + Suc r)"
    by simp
  then have "of_nat a < M"
    using Suc.prems(2) by (rule less_le_trans)
  ultimately obtain le1 where first: "fetchWithRetry_loop env M a le ds =
      fetchWithRetry_loop env M (Suc a) le1 (ds @ [backoff a])"
    using loop_retry_once by blast
  have "\<forall>i<r. server_or_network_failure (env (Suc a + i))"
    using Suc.prems(1) by auto
  moreover have "of_nat (Suc a + r) \<le> M"
    using Suc.prems(2) by simp
  ultimately obtain le2 where rest:
    "fetchWithRetry_loop env M (Suc a) le1 (ds @ [backoff a]) =
     fetchWithRetry_loop env M (Suc a + r) le2
       ((ds @ [backoff a]) @ map backoff [Suc a..<Suc a + r])"
    using Suc.IH by blast
  have "[a..<a + Suc r] = a # [Suc a..<Suc a + r]"
    by (simp add: upt_conv_Cons)
  with first rest show ?case by auto
qed

lemma loop_success:
  "of_nat a \<le> M \<Longrightarrow> env a = Responds res \<Longrightarrow> ok res \<Longrightarrow>
   fetchWithRetry_loop env M a le ds = \<lparr> outcome = Inr res, attempts = Suc a, delays = ds \<rparr>"
  by (subst fetchWithRetry_loop.simps) (simp add: try_body_def)

lemma loop_client_error:
  "of_nat a \<le> M \<Longrightarrow> env a = Responds res \<Longrightarrow> 400 \<le> status res \<Longrightarrow> status res < 500 \<Longrightarrow>
   fetchWithRetry_loop env M a le ds =
     \<lparr> outcome = Inl (ApiError (status res) (statusText res)), attempts = Suc a, delays = ds \<rparr>"
  by (subst fetchWithRetry_loop.simps) (simp add: try_body_def catch_clause_def ok_def)

lemma loop_server_error_last:
  "of_nat a = M \<Longrightarrow> env a = Responds res \<Longrightarrow> 500 \<le> status res \<Longrightarrow>
   fetchWithRetry_loop env M a le ds =
     \<lparr> outcome = Inl (ApiError (status res) (statusText res)), attempts = Suc a, delays = ds \<rparr>"
  by (subst fetchWithRetry_loop.simps) (auto simp: try_body_def catch_clause_def ok_def)

lemma loop_network_last:
  "of_nat a = M \<Longrightarrow> env a = Fails (OtherError m) \<Longrightarrow>
   fetchWithRetry_loop env M a le ds =
     \<lparr> outcome = Inl (NetworkError ''Network request failed'' m), attempts = Suc a,
       delays = ds \<rparr>"
  by (subst fetchWithRetry_loop.simps) (auto simp: try_body_def catch_clause_def)

lemma loop_attempts_bound:
  "attempts (fetchWithRetry_loop env M a le ds) \<le> max a (nat (\<lfloor>M\<rfloor> + 1))"
proof (induction env M a le ds rule: fetchWithRetry_loop.induct)
  case (1 env M a le ds)
  show ?case
  proof (cases "of_nat a \<le> M")
    case False
    then show ?thesis
      by (subst fetchWithRetry_loop.simps) simp
  next
    case True
    then have "int a \<le> \<lfloor>M\<rfloor>"
      by (simp add: le_floor_iff)
    then have le: "Suc a \<le> nat (\<lfloor>M\<rfloor> + 1)"
      by simp
    show ?thesis
      apply (subst fetchWithRetry_loop.simps)
      using 1 True le
      by (auto split: try_result.splits catch_result.splits simp: max_def split: if_splits)
  qed
qed

text \<open>
  The retry policy for a whole number of retries. Let the first \<open>r\<close> attempts, with
  \<open>r\<close> at most \<open>min(retries, 5)\<close>, each end in a response of status 500 or more or in a
  network failure. Each of them is followed by a sleep of \<open>min(200 * 2^attempt, 5000)\<close>
  ms and another attempt. If attempt \<open>r\<close> then succeeds, its response is returned after
  \<open>r + 1\<close> attempts. If it is answered with a status from 400 to 499, the \<open>ApiError\<close>
  of that status is raised at once, with no further attempt. If \<open>r\<close> is
  \<open>min(retries, 5)\<close> itself, a status of 500 or more raises the \<open>ApiError\<close> of this
  last response and a network failure raises a \<open>NetworkError\<close> around its cause. In no
  case are there more attempts than the whole part of \<open>min(retries, 5)\<close>, plus one.
\<close>

lemma fetchWithRetry_policy:
  assumes "of_nat r \<le> min retries 5" and "\<forall>i<r. server_or_network_failure (env i)"
  shows "(\<forall>res. env r = Responds res \<and> ok res \<longrightarrow>
            fetchWithRetry env retries =
              \<lparr> outcome = Inr res, attempts = r + 1, delays = map backoff [0..<r] \<rparr>) \<and>
         (\<forall>res. env r = Responds res \<and> 400 \<le> status res \<and> status res \<le> 499 \<longrightarrow>
            fetchWithRetry env retries =
              \<lparr> outcome = Inl (ApiError (status res) (statusText res)), attempts = r + 1,
                delays = map backoff [0..<r] \<rparr>) \<and>
         (\<forall>res. env r = Responds res \<and> 500 \<le> status res \<and> of_nat r = min retries 5 \<longrightarrow>
            fetchWithRetry env retries =
              \<lparr> outcome = Inl (ApiError (status res) (statusText res)), attempts = r + 1,
                delays = map backoff [0..<r] \<rparr>) \<and>
         (\<forall>m. env r = Fails (OtherError m) \<and> of_nat r = min retries 5 \<longrightarrow>
            fetchWithRetry env retries =
              \<lparr> outcome = Inl (NetworkError ''Network request failed'' m), attempts = r + 1,
                delays = map backoff [0..<r] \<rparr>) \<and>
         (\<forall>a. backoff a = min (200 * 2 ^ a) 5000) \<and>
         attempts (fetchWithRetry env' retries) \<le> nat \<lfloor>min retries 5\<rfloor> + 1"
proof -
  obtain le' where prefix: "fetchWithRetry env retries =
      fetchWithRetry_loop env (min retries 5) r le' (map backoff [0..<r])"
    using loop_retry_prefix [of r env 0 "min retries 5" None "[]"] assms
    by (auto simp: fetchWithRetry_def)
  have z: "(0 :: rat) \<le> of_nat r" by simp
  from z assms(1) have "0 \<le> min retries 5" by (rule order_trans)
  then have "0 \<le> \<lfloor>min retries 5\<rfloor>" by simp
  then have bound: "attempts (fetchWithRetry env' retries) \<le> nat \<lfloor>min retries 5\<rfloor> + 1"
    using loop_attempts_bound [of env' "min retries 5" 0 None "[]"]
    by (simp add: fetchWithRetry_def max_def nat_add_distrib split: if_splits)
  have r: "of_nat r \<le> min retries 5" by (rule assms(1))
  show ?thesis
  proof (intro conjI allI impI)
    fix res assume "env r = Responds res \<and> ok res"
    then show "fetchWithRetry env retries =
        \<lparr> outcome = Inr res, attempts = r + 1, delays = map backoff [0..<r] \<rparr>"
      using prefix r by (simp add: loop_success)
  next
    fix res assume "env r = Responds res \<and> 400 \<le> status res \<and> status res \<le> 499"
    then show "fetchWithRetry env retries =
        \<lparr> outcome = Inl (ApiError (status res) (statusText res)), attempts = r + 1,
          delays = map backoff [0..<r] \<rparr>"
      using prefix r by (simp add: loop_client_error)
  next
    fix res assume "env r = Responds res \<and> 500 \<le> status res \<and> of_nat r = min retries 5"
    then show "fetchWithRetry env retries =
        \<lparr> outcome = Inl (ApiError (status res) (statusText res)), attempts = r + 1,
          delays = map backoff [0..<r] \<rparr>"
      using prefix by (simp add: loop_server_error_last)
  next
    fix m assume "env r = Fails (OtherError m) \<and> of_nat r = min retries 5"
    then show "fetchWithRetry env retries =
        \<lparr> outcome = Inl (NetworkError ''Network request failed'' m), attempts = r + 1,
          delays = map backoff [0..<r] \<rparr>"
      using prefix by (simp add: loop_network_last)
  next
    fix a show "backoff a = min (200 * 2 ^ a) 5000" by (simp add: backoff_def)
  next
    show "attempts (fetchWithRetry env' retries) \<le> nat \<lfloor>min retries 5\<rfloor> + 1" by (rule bound)
  qed
qed

text \<open>
  C3. The claim is that when the retries are used up the last \<open>ApiError\<close> is raised.
  With a retry count of 2.5 and a server that answers every attempt with status 503,
  the attempts 0, 1 and 2 each sleep and go on (line 85: \<open>attempt < maxRetries\<close>), the
  loop then ends by its condition (\<open>3 <= 2.5\<close> is false), and since the rounds went on
  from inside the \<open>try\<close>, \<open>lastErr\<close> was never set: the code after the loop throws a
  \<open>NetworkError\<close> "Network request failed after retries" around \<open>Error("undefined")\<close>,
  after three attempts and three sleeps.
\<close>

theorem fetchWithRetry_fractional_retries:
  "fetchWithRetry (\<lambda>i. ex_response 503) (5 / 2) =
     \<lparr> outcome = Inl (NetworkError ''Network request failed after retries'' ''undefined''),
       attempts = 3, delays = [200, 400, 800] \<rparr>"
  by (simp add: fetchWithRetry_def fetchWithRetry_loop.simps try_body_def ok_def
      ex_response_def backoff_def after_loop_def)

text \<open>The policy on four runs: two retries and then success, a client error, the cap at
  five retries, and a network failure that uses up one retry.\<close>

lemma fetchWithRetry_examples:
  "fetchWithRetry (\<lambda>i. if i < 2 then ex_response 500 else ex_response 200) 2 =
     \<lparr> outcome = Inr \<lparr> status = 200, statusText = [] \<rparr>, attempts = 3, delays = [200, 400] \<rparr> \<and>
   fetchWithRetry (\<lambda>i. ex_response 400) 2 =
     \<lparr> outcome = Inl (ApiError 400 []), attempts = 1, delays = [] \<rparr> \<and>
   fetchWithRetry (\<lambda>i. ex_response 503) 100 =
     \<lparr> outcome = Inl (ApiError 503 []), attempts = 6,
       delays = [200, 400, 800, 1600, 3200] \<rparr> \<and>
   fetchWithRetry (\<lambda>i. Fails (OtherError ''fetch failed'')) 1 =
     \<lparr> outcome = Inl (NetworkError ''Network request failed'' ''fetch failed''),
       attempts = 2, delays = [200] \<rparr>"
  by (simp add: fetchWithRetry_def fetchWithRetry_loop.simps try_body_def ok_def
      catch_clause_def ex_response_def backoff_def)

section \<open>Tokens\<close>

text \<open>
  C8, as amended. \<open>normalizeToken\<close> tests both fields for truth, and the number 0 is as
  false as a missing field. It sets \<open>expires_at = now + expires_in * 1000\<close> exactly when
  \<open>expires_at\<close> is missing or 0 and \<open>expires_in\<close> is present and not 0. In every other
  case the token is returned as it is: with \<open>expires_in\<close> missing or 0 no \<open>expires_at\<close>
  is made up, and an \<open>expires_at\<close> other than 0 is kept.
\<close>

theorem normalizeToken_derives_expires_at:
  "((expires_at t = None \<or> expires_at t = Some 0) \<and> expires_in t = Some n \<and> n \<noteq> 0 \<longrightarrow>
      normalizeToken now t = t\<lparr> expires_at := Some (now + n * 1000) \<rparr>) \<and>
   (expires_in t = None \<or> expires_in t = Some 0 \<longrightarrow> normalizeToken now t = t) \<and>
   (expires_at t = Some a \<and> a \<noteq> 0 \<longrightarrow> normalizeToken now t = t)"
  by (auto simp: normalizeToken_def)

theorem normalizeToken_derives_expires_at_witness:
  "normalizeToken 1000 (ex_token (Some 3600) None) = ex_token (Some 3600) (Some 3601000) \<and>
   normalizeToken 1000 (ex_token (Some 0) None) = ex_token (Some 0) None \<and>
   normalizeToken 1000 (ex_token (Some 3600) (Some 7200000)) =
     ex_token (Some 3600) (Some 7200000)"
  using normalizeToken_derives_expires_at [of "ex_token (Some 3600) None" 3600 1000 0]
        normalizeToken_derives_expires_at [of "ex_token (Some 0) None" 0 1000 0]
        normalizeToken_derives_expires_at
          [of "ex_token (Some 3600) (Some 7200000)" 3600 1000 7200000]
  by (simp add: ex_token_def)

text \<open>The claim as it stands fails on a token that has \<open>expires_at = 0\<close>: the field is
  present, and \<open>normalizeToken\<close> replaces it.\<close>

theorem normalizeToken_counterexample:
  "expires_at (ex_token (Some 3600) (Some 0)) = Some 0 \<and>
   expires_at (normalizeToken 1000 (ex_token (Some 3600) (Some 0))) = Some 3601000"
  by (simp add: normalizeToken_def ex_token_def)

text \<open>
  C9, as amended. \<open>isTokenExpired\<close> returns false when \<open>expires_at\<close> is missing or 0.
  For any other \<open>expires_at\<close> it returns true exactly when
  \<open>now \<ge> expires_at - skewSec * 1000\<close>, with a skew of 60 when the argument is left
  out; so a token with 30 seconds left is expired at skew 60 and valid at skew 0.
\<close>

theorem isTokenExpired_skew:
  "(expires_at t = None \<or> expires_at t = Some 0 \<longrightarrow> \<not> isTokenExpired now t skewSec) \<and>
   (expires_at t = Some a \<and> a \<noteq> 0 \<longrightarrow>
      isTokenExpired now t skewSec =
        (now \<ge> a - (case skewSec of None \<Rightarrow> 60 | Some x \<Rightarrow> x) * 1000)) \<and>
   (expires_at t = Some (now + 30000) \<and> now + 30000 \<noteq> 0 \<longrightarrow>
      isTokenExpired now t (Some 60) \<and> \<not> isTokenExpired now t (Some 0))"
  by (auto simp: isTokenExpired_def Let_def)

theorem isTokenExpired_skew_witness:
  "\<not> isTokenExpired 1000 (ex_token None None) None \<and>
   isTokenExpired 1000 (ex_token None (Some 31000)) (Some 60) \<and>
   \<not> isTokenExpired 1000 (ex_token None (Some 31000)) (Some 0) \<and>
   isTokenExpired 1000 (ex_token None (Some 1000)) (Some 0)"
  using isTokenExpired_skew [of "ex_token None None" 1000 None 0]
        isTokenExpired_skew [of "ex_token None (Some 31000)" 1000 "Some 60" 31000]
        isTokenExpired_skew [of "ex_token None (Some 31000)" 1000 "Some 0" 31000]
        isTokenExpired_skew [of "ex_token None (Some 1000)" 1000 "Some 0" 1000]
  by (simp add: ex_token_def)

text \<open>The claim as it stands fails on a token that has \<open>expires_at = 0\<close>: at time 1000
  and skew 60 the test \<open>now \<ge> expires_at - skewSec * 1000\<close> is true, and
  \<open>isTokenExpired\<close> returns false.\<close>

theorem isTokenExpired_counterexample:
  "expires_at (ex_token None (Some 0)) = Some 0 \<and>
   (1000 :: int) \<ge> 0 - 60 * 1000 \<and>
   isTokenExpired 1000 (ex_token None (Some 0)) (Some 60) = False"
  by (simp add: isTokenExpired_def ex_token_def)

end
